theory Spec2Isabelle
  imports Main "HOL-Library.Sublist"
begin

section \<open>Data of the metaphor action\<close>

text \<open>
  The action reads one issue from the hosting platform and talks to it through an
  authenticated client. Strings are byte strings (the UTF-8 form that
  \<^verbatim>\<open>Buffer.from\<close> encodes); all tokens the code searches for are ASCII, so
  searching bytes and searching UTF-16 units agree. Console output never influences
  control flow and is left out of the model; everything else the handlers do (requests
  sent to the platform, the value returned, the failure status of the run, rejections of
  promises nobody awaits) is recorded.
\<close>

abbreviation (input) NL :: char where
  "NL \<equiv> CHR 0x0A"

record issue =
  state :: string
  title :: string
  user_login :: string
  created_at :: string
  body :: "string option"
  labels :: "string list"
  assignees :: "string list"

text \<open>
  The platform sends \<^verbatim>\<open>null\<close> as the body of an issue without description
  (\<open>None\<close>). Where a text is expected, \<^verbatim>\<open>replace\<close> converts its replacement
  value to a string, and \<^verbatim>\<open>null\<close> becomes the four letters.
\<close>

definition toString :: "string option \<Rightarrow> string" where
  "toString v = (case v of None \<Rightarrow> ''null'' | Some text \<Rightarrow> text)"

record repo_ref =
  owner :: string
  repo :: string

record issue_ref = repo_ref +
  number :: nat

record identity =
  name :: string
  email :: string

record file_request = repo_ref +
  path :: string
  message :: string
  content :: string
  committer :: identity
  author :: identity

datatype api_call =
    IssuesGet issue_ref
  | CreateOrUpdateFileContents file_request
  | AddLabels issue_ref "string list"

text \<open>
  The client: each request either resolves (\<open>Inr\<close>) or rejects with an error whose
  message is given (\<open>Inl\<close>).
\<close>

record client =
  issues_get :: "issue_ref \<Rightarrow> string + issue"
  repos_createOrUpdateFileContents :: "file_request \<Rightarrow> string + string"
  issues_addLabels :: "issue_ref \<Rightarrow> string list \<Rightarrow> string + unit"

text \<open>
  The modules \<^verbatim>\<open>./utils/slugify\<close> and \<^verbatim>\<open>./utils/git\<close> are required by
  the story generator but are not part of the sources at hand; what they export is a
  parameter of the model.
\<close>

record utils =
  slugify :: "string \<Rightarrow> string"
  ghBotUsername :: string
  ghBotEmail :: string

section \<open>Template rendering\<close>

text \<open>
  \<^verbatim>\<open>String.prototype.replace\<close> with a string as replacement expands the patterns
  \<^verbatim>\<open>$$\<close>, \<^verbatim>\<open>$&\<close>, \<^verbatim>\<open>$`\<close> and \<^verbatim>\<open>$'\<close> of the replacement text. The
  regular expressions built by the renderer have no capture groups, so a dollar followed
  by digits or by \<^verbatim>\<open><\<close> stands for itself.
\<close>

fun getSubstitution :: "string \<Rightarrow> string \<Rightarrow> string \<Rightarrow> string \<Rightarrow> string" where
  "getSubstitution matched preceding following (c # d # r) =
     (if c = CHR ''$'' \<and> d = CHR ''$'' then CHR ''$'' # getSubstitution matched preceding following r
      else if c = CHR ''$'' \<and> d = CHR ''&'' then matched @ getSubstitution matched preceding following r
      else if c = CHR ''$'' \<and> d = CHR 0x60 then preceding @ getSubstitution matched preceding following r
      else if c = CHR ''$'' \<and> d = CHR 0x27 then following @ getSubstitution matched preceding following r
      else c # getSubstitution matched preceding following (d # r))"
| "getSubstitution matched preceding following r = r"

text \<open>
  \<^verbatim>\<open>text.replace(new RegExp(placeholder, 'g'), value)\<close> for the placeholders of the
  renderer. A brace that does not open a quantifier is an ordinary pattern character, so
  each of these expressions matches its own text and nothing else. All matches are found
  from left to right without overlap in the text as it was before the call; \<open>pre\<close> is
  the part of that text already scanned, which \<^verbatim>\<open>$`\<close> refers to. The search tokens are
  never empty; an empty token is treated as matching nowhere.
\<close>

function replace_all :: "string \<Rightarrow> string \<Rightarrow> string \<Rightarrow> string \<Rightarrow> string" where
  "replace_all pat repl pre [] = []"
| "replace_all pat repl pre (c # cs) =
     (if pat \<noteq> [] \<and> prefix pat (c # cs)
      then getSubstitution pat pre (drop (length pat) (c # cs)) repl
           @ replace_all pat repl (pre @ pat) (drop (length pat) (c # cs))
      else c # replace_all pat repl (pre @ [c]) cs)"
  by pat_completeness auto
termination
  by (relation "measure (\<lambda>(pat, repl, pre, s). length s)") (auto simp: neq_Nil_conv)

definition js_replace :: "string \<Rightarrow> string \<Rightarrow> string \<Rightarrow> string" where
  "js_replace placeholder v text = replace_all placeholder v [] text"

definition template :: string where
  "template =
     ''---'' @ NL # ''layout: post'' @ NL # ''title: {title}'' @ NL # ''author: {author}'' @ NL #
     ''created_at: {created_at}'' @ NL # ''language: {language}'' @ NL # ''---'' @ NL # NL #
     ''{content}''"

definition placeholders :: "string list" where
  "placeholders = [''{title}'', ''{author}'', ''{created_at}'', ''{language}'', ''{content}'']"

text \<open>
  The \<^verbatim>\<open>reduce\<close> over the placeholders: the accumulator starts as the template and
  each step rewrites the text the previous step produced.
\<close>

definition replacedTemplate :: "string \<Rightarrow> string \<Rightarrow> string \<Rightarrow> string \<Rightarrow> string \<Rightarrow> string" where
  "replacedTemplate t a d category b =
     foldl (\<lambda>text (placeholder, v). js_replace placeholder v text) template
       (zip placeholders [t, a, d, category, b])"

section \<open>Base64\<close>

definition b64chars :: string where
  "b64chars = ''ABCDEFGHIJKLMNOPQRSTUVWXYZabcdefghijklmnopqrstuvwxyz0123456789+/''"

definition b64 :: "nat \<Rightarrow> char" where
  "b64 i = b64chars ! i"

text \<open>
  \<^verbatim>\<open>Buffer.from(text).toString('base64')\<close>: three bytes become four digits, with
  padding at the end. Every index handed to \<open>b64\<close> is below 64 because a byte is below
  256.
\<close>

fun toBase64 :: "string \<Rightarrow> string" where
  "toBase64 (a # b # c # r) =
     (let x = (of_char a :: nat); y = (of_char b :: nat); z = (of_char c :: nat)
      in b64 (x div 4) # b64 ((x mod 4) * 16 + y div 16) # b64 ((y mod 16) * 4 + z div 64)
         # b64 (z mod 64) # toBase64 r)"
| "toBase64 [a, b] =
     (let x = (of_char a :: nat); y = (of_char b :: nat)
      in [b64 (x div 4), b64 ((x mod 4) * 16 + y div 16), b64 ((y mod 16) * 4), CHR ''=''])"
| "toBase64 [a] =
     (let x = (of_char a :: nat)
      in [b64 (x div 4), b64 ((x mod 4) * 16), CHR ''='', CHR ''=''])"
| "toBase64 [] = []"

section \<open>Classification by labels\<close>

definition metaphors :: "(string \<times> string) list" where
  "metaphors =
     [(''linux'', ''linux''), (''cpp'', ''cpp''), (''css'', ''css''), (''golang'', ''golang''),
      (''javascript'', ''javascript''), (''java'', ''java''), (''maths'', ''maths''),
      (''python'', ''python''), (''php'', ''php''), (''physics'', ''physics''),
      (''ruby'', ''ruby''), (''rust'', ''rust''), (''zig'', ''zig'')]"

text \<open>\<^verbatim>\<open>labels.every(l => ['metaphore', category].includes(l))\<close>\<close>

definition label_match :: "string list \<Rightarrow> string \<Rightarrow> bool" where
  "label_match ls category = list_all (\<lambda>l. l \<in> set [''metaphore'', category]) ls"

definition isMetaphor :: "string list \<Rightarrow> bool" where
  "isMetaphor ls = list_ex (\<lambda>(category, label). label_match ls category) metaphors"

definition find_metaphor :: "string list \<Rightarrow> (string \<times> string) option" where
  "find_metaphor ls = find (\<lambda>(category, label). label_match ls category) metaphors"

definition isReviewerPresence :: "string list \<Rightarrow> bool" where
  "isReviewerPresence logins = list_ex (\<lambda>login. login \<in> set [''darkterminal'', ''mkubdev'']) logins"

section \<open>The story generator\<close>

text \<open>
  An asynchronous function that is called without \<^verbatim>\<open>await\<close> runs up to its first
  request, which is sent at once; whether that request later fails is not seen by the
  caller. Such a function is modelled by the requests it sends and the message of its
  rejection, if it rejects.
\<close>

definition createFileContent :: "utils \<Rightarrow> client \<Rightarrow> string \<Rightarrow> string \<Rightarrow> string \<Rightarrow> string \<Rightarrow> string
    \<Rightarrow> api_call list \<times> string option" where
  "createFileContent u cl ow rp pth msg cnt =
     (let bot = \<lparr>name = ghBotUsername u, email = ghBotEmail u\<rparr>;
          req = \<lparr>owner = ow, repo = rp, path = pth, message = msg, content = cnt,
                 committer = bot, author = bot\<rparr>
      in ([CreateOrUpdateFileContents req],
          case repos_createOrUpdateFileContents cl req of Inl e \<Rightarrow> Some e | Inr meta \<Rightarrow> None))"

definition createMetaphorFile :: "utils \<Rightarrow> client \<Rightarrow> issue \<Rightarrow> issue_ref \<Rightarrow> string
    \<Rightarrow> api_call list \<times> string option" where
  "createMetaphorFile u cl issueData ctx category =
     (let metaphorTitle = slugify u (title issueData);
          replaced = replacedTemplate (title issueData) (user_login issueData)
                       (created_at issueData) category (toString (body issueData));
          metaphorContent = toBase64 replaced
      in createFileContent u cl (owner ctx) (repo ctx)
           (''public/collections/stories/'' @ category @ ''/'' @ metaphorTitle @ ''.md'')
           (''docs(generate): new metaphor from @'' @ user_login issueData)
           metaphorContent)"

definition addLabelToClosedIssue :: "client \<Rightarrow> string \<Rightarrow> string \<Rightarrow> nat \<Rightarrow> string list
    \<Rightarrow> api_call list \<times> string option" where
  "addLabelToClosedIssue cl ow rp issue_number ls =
     (let ref = \<lparr>owner = ow, repo = rp, number = issue_number\<rparr>
      in ([AddLabels ref ls],
          case issues_addLabels cl ref ls of Inl e \<Rightarrow> Some e | Inr ok \<Rightarrow> None))"

text \<open>
  What one run of the handler did: the requests sent, in order; the messages of
  rejections that no one handles; and the value the handler resolved to (\<open>Some False\<close>
  from its \<^verbatim>\<open>catch\<close>, \<open>None\<close> for \<^verbatim>\<open>undefined\<close>).
\<close>

fun rejections :: "string option \<Rightarrow> string list" where
  "rejections None = []"
| "rejections (Some e) = [e]"

record story_run =
  calls :: "api_call list"
  unhandled :: "string list"
  returned :: "bool option"

definition caught :: "issue_ref \<Rightarrow> story_run" where
  "caught ctx = \<lparr>calls = [IssuesGet ctx], unhandled = [], returned = Some False\<rparr>"

definition storyGenerator :: "utils \<Rightarrow> client \<Rightarrow> issue_ref \<Rightarrow> story_run" where
  "storyGenerator u cl ctx =
     (case issues_get cl ctx of
        Inl e \<Rightarrow> caught ctx
      | Inr issueData \<Rightarrow>
          if state issueData = ''closed'' \<and> isReviewerPresence (assignees issueData) then
            (let ls = labels issueData;
                 labelled = addLabelToClosedIssue cl (owner ctx) (repo ctx) (number ctx)
                              (ls @ [''published''])
             in if isMetaphor ls then
                  (case find_metaphor ls of
                     None \<Rightarrow> caught ctx
                   | Some (category, label) \<Rightarrow>
                       (let created = createMetaphorFile u cl issueData ctx label
                        in \<lparr>calls = IssuesGet ctx # fst created @ fst labelled,
                            unhandled = rejections (snd created) @ rejections (snd labelled),
                            returned = None\<rparr>))
                else \<lparr>calls = IssuesGet ctx # fst labelled,
                      unhandled = rejections (snd labelled),
                      returned = None\<rparr>)
          else \<lparr>calls = [IssuesGet ctx], unhandled = [], returned = None\<rparr>)"

section \<open>The event router\<close>

text \<open>
  \<^verbatim>\<open>index.js\<close>. Reading the inputs and building the client may throw; \<open>setup\<close>
  is the outcome of that prologue. The greeting handler lives in a module that is not
  part of the sources at hand and is a parameter: it resolves after sending some
  requests, or rejects with a message. \<open>failed\<close> is the argument of
  \<^verbatim>\<open>core.setFailed\<close> when the run was marked failed.
\<close>

datatype handler = StoryGenerator | GreetingContributor

record main_run =
  invoked :: "handler option"
  sent :: "api_call list"
  rejected :: "string list"
  failed :: "string option"

definition main :: "utils \<Rightarrow> (client \<Rightarrow> issue_ref \<Rightarrow> string + api_call list) \<Rightarrow> string + client
    \<Rightarrow> string option \<Rightarrow> issue_ref \<Rightarrow> main_run" where
  "main u greetingContributor setup action ctx =
     (case setup of
        Inl e \<Rightarrow> \<lparr>invoked = None, sent = [], rejected = [], failed = Some e\<rparr>
      | Inr cl \<Rightarrow>
          if action = Some ''closed'' then
            (let r = storyGenerator u cl ctx
             in \<lparr>invoked = Some StoryGenerator, sent = calls r, rejected = unhandled r,
                 failed = None\<rparr>)
          else if action = Some ''opened'' then
            (case greetingContributor cl ctx of
               Inl e \<Rightarrow> \<lparr>invoked = Some GreetingContributor, sent = [], rejected = [],
                          failed = Some e\<rparr>
             | Inr cs \<Rightarrow> \<lparr>invoked = Some GreetingContributor, sent = cs, rejected = [],
                           failed = None\<rparr>)
          else \<lparr>invoked = None, sent = [], rejected = [],
                failed = Some ''No action, skipping!''\<rparr>)"

section \<open>Reading a run\<close>

text \<open>The file commits and the label updates among the requests of a run.\<close>

fun file_commits :: "api_call list \<Rightarrow> file_request list" where
  "file_commits [] = []"
| "file_commits (CreateOrUpdateFileContents q # cs) = q # file_commits cs"
| "file_commits (c # cs) = file_commits cs"

fun label_updates :: "api_call list \<Rightarrow> (issue_ref \<times> string list) list" where
  "label_updates [] = []"
| "label_updates (AddLabels r ls # cs) = (r, ls) # label_updates cs"
| "label_updates (c # cs) = label_updates cs"

text \<open>
  The committed file as the specification words it: a front-matter block with the five
  keys, each followed by the value of its field, then a blank line and the body.
\<close>

definition front_matter_document :: "string \<Rightarrow> string \<Rightarrow> string \<Rightarrow> string \<Rightarrow> string \<Rightarrow> string" where
  "front_matter_document t a d category b =
     ''---'' @ NL # ''layout: post'' @ NL # ''title: '' @ t @ NL # ''author: '' @ a @ NL #
     ''created_at: '' @ d @ NL # ''language: '' @ category @ NL # ''---'' @ NL # NL # b"

text \<open>
  A text without any of the four replacement patterns of \<^verbatim>\<open>replace\<close>; a dollar
  sign that is followed by something else, or by nothing, is allowed.
\<close>

definition pattern_free :: "string \<Rightarrow> bool" where
  "pattern_free v \<longleftrightarrow>
     \<not> sublist ''$$'' v \<and> \<not> sublist ''$&'' v \<and>
     \<not> sublist [CHR ''$'', CHR 0x60] v \<and> \<not> sublist [CHR ''$'', CHR 0x27] v"

section \<open>Sample inputs\<close>

text \<open>
  Concrete inputs for the sample runs below. \<open>sample_utils\<close> stands in for the two
  utility modules (its slug function returns the title as it is); \<open>platform\<close> is a
  client that answers the fetch with the given outcome and accepts every write.
\<close>

definition sample_utils :: utils where
  "sample_utils = \<lparr>slugify = (\<lambda>t. t), ghBotUsername = ''bot'', ghBotEmail = ''bot@example.org''\<rparr>"

definition sample_ctx :: issue_ref where
  "sample_ctx = \<lparr>owner = ''StreetCommunityProgrammer'', repo = ''metaphore'', number = 42\<rparr>"

definition sample_issue :: issue where
  "sample_issue =
     \<lparr>state = ''closed'', title = ''A Tale of Borrow Checker'', user_login = ''alice'',
      created_at = ''2023-04-01T10:00:00Z'', body = Some ''Once upon a compile...'',
      labels = [''metaphore'', ''rust''], assignees = [''darkterminal'']\<rparr>"

definition unassigned_issue :: issue where
  "unassigned_issue = sample_issue\<lparr>assignees := [''alice'']\<rparr>"

definition unlabelled_issue :: issue where
  "unlabelled_issue = sample_issue\<lparr>labels := []\<rparr>"

definition bug_issue :: issue where
  "bug_issue = sample_issue\<lparr>labels := [''bug'']\<rparr>"

definition published_issue :: issue where
  "published_issue = sample_issue\<lparr>labels := [''metaphore'', ''rust'', ''published'']\<rparr>"

definition maths_issue :: issue where
  "maths_issue =
     sample_issue\<lparr>title := ''Area of a Circle'', labels := [''metaphore'', ''maths''],
       body := Some ''The area is $$ab$$''\<rparr>"

definition undescribed_issue :: issue where
  "undescribed_issue = sample_issue\<lparr>body := None\<rparr>"

definition platform :: "string + issue \<Rightarrow> client" where
  "platform fetched =
     \<lparr>issues_get = (\<lambda>r. fetched),
      repos_createOrUpdateFileContents = (\<lambda>q. Inr ''{}''),
      issues_addLabels = (\<lambda>r ls. Inr ())\<rparr>"

definition rejecting_commits :: "client \<Rightarrow> client" where
  "rejecting_commits cl = cl\<lparr>repos_createOrUpdateFileContents := (\<lambda>q. Inl ''Validation Failed'')\<rparr>"

definition no_greeting :: "client \<Rightarrow> issue_ref \<Rightarrow> string + api_call list" where
  "no_greeting cl ctx = Inr []"

definition failing_greeting :: "client \<Rightarrow> issue_ref \<Rightarrow> string + api_call list" where
  "failing_greeting cl ctx = Inl ''Bad credentials''"

section \<open>The classifier\<close>

lemma label_match_iff: "label_match ls c \<longleftrightarrow> set ls \<subseteq> {''metaphore'', c}"
  by (auto simp: label_match_def list_all_iff)

lemma find_Some_member: "find P xs = Some x \<Longrightarrow> P x \<and> x \<in> set xs"
  by (induction xs) (auto split: if_splits)

lemma find_metaphor_isMetaphor:
  "find_metaphor ls = Some p \<Longrightarrow> isMetaphor ls \<and> p \<in> set metaphors"
  unfolding find_metaphor_def isMetaphor_def list_ex_iff
  by (blast dest: find_Some_member)

lemma isMetaphor_find:
  assumes "isMetaphor ls"
  shows "\<exists>c l. find_metaphor ls = Some (c, l) \<and> label_match ls c"
proof (cases "find_metaphor ls")
  case None
  then have "\<not> isMetaphor ls"
    by (auto simp: find_metaphor_def isMetaphor_def find_None_iff list_ex_iff)
  with assms show ?thesis by simp
next
  case (Some p)
  then have "label_match ls (fst p)"
    by (auto simp: find_metaphor_def case_prod_beta dest: find_Some_member)
  with Some show ?thesis by (cases p) simp
qed

lemma published_not_metaphor: "''published'' \<in> set ls \<Longrightarrow> \<not> isMetaphor ls"
  by (auto simp: isMetaphor_def metaphors_def label_match_iff)

lemma category_not_tag: "(c, l) \<in> set metaphors \<Longrightarrow> c \<noteq> ''metaphore'' \<and> c \<noteq> ''published''"
  by (auto simp: metaphors_def)

lemma find_category:
  "(c, l) \<in> set metaphors \<Longrightarrow> find (\<lambda>(category, label). category = c) metaphors = Some (c, l)"
  unfolding metaphors_def by (elim disjE | simp)+

lemma exact_pair_classified:
  assumes "(c, l) \<in> set metaphors" and "set ls = {''metaphore'', c}"
  shows "isMetaphor ls \<and> find_metaphor ls = Some (c, l)"
proof -
  have nt: "c \<noteq> ''metaphore''"
    using category_not_tag [OF assms(1)] by simp
  have m: "\<And>c'. label_match ls c' \<longleftrightarrow> c' = c"
    using assms(2) nt unfolding label_match_iff by auto
  have "find_metaphor ls = find (\<lambda>(category, label). category = c) metaphors"
    unfolding find_metaphor_def by (rule find_cong) (auto simp: m)
  with find_category [OF assms(1)] have "find_metaphor ls = Some (c, l)" by simp
  then show ?thesis
    by (simp add: find_metaphor_isMetaphor)
qed

lemma other_labels_unmatched:
  assumes "x \<in> set ls" and "x \<noteq> ''metaphore''" and "x \<notin> fst ` set metaphors"
  shows "\<not> isMetaphor ls \<and> find_metaphor ls = None"
proof -
  have "\<And>c d. (c, d) \<in> set metaphors \<Longrightarrow> \<not> label_match ls c"
    using assms by (force simp: label_match_iff)
  then show ?thesis
    by (auto simp: isMetaphor_def find_metaphor_def find_None_iff list_ex_iff)
qed

text \<open>
  C10. A label list that passes the test \<open>label_match\<close> for two different categories
  consists of the tag \<^verbatim>\<open>metaphore\<close> alone or is empty; it then passes the test for
  every category, and the classifier selects the first entry of the table, which is
  \<^verbatim>\<open>linux\<close>.
\<close>

theorem classifier_selects_first:
  assumes "label_match ls c1" and "label_match ls c2" and "c1 \<noteq> c2"
  shows "isMetaphor ls \<and> find_metaphor ls = Some (''linux'', ''linux'') \<and>
         metaphors ! 0 = (''linux'', ''linux'') \<and> (\<forall>c. label_match ls c)"
proof -
  have "set ls \<subseteq> {''metaphore''}"
    using assms by (auto simp: label_match_iff)
  then have every: "\<And>c. label_match ls c"
    by (auto simp: label_match_iff)
  have "find_metaphor ls = Some (''linux'', ''linux'')"
    using every [of "''linux''"] by (simp add: find_metaphor_def metaphors_def)
  moreover have "isMetaphor ls"
    using every [of "''linux''"] by (simp add: isMetaphor_def metaphors_def)
  ultimately show ?thesis
    using every by (simp add: metaphors_def)
qed

theorem classifier_selects_first_witness:
  "label_match [''metaphore''] ''rust'' \<and> label_match [''metaphore''] ''zig'' \<and> ''rust'' \<noteq> ''zig'' \<and>
   isMetaphor [''metaphore''] \<and> find_metaphor [''metaphore''] = Some (''linux'', ''linux'') \<and>
   label_match [] ''rust'' \<and> label_match [] ''zig'' \<and> find_metaphor [] = Some (''linux'', ''linux'')"
  using classifier_selects_first [of "[''metaphore'']" "''rust''" "''zig''"]
    classifier_selects_first [of "[]" "''rust''" "''zig''"]
  by (simp add: label_match_def)

text \<open>
  C1. The claim asks for no match unless the labels are exactly the tag and one category.
  The code tests only that every label is among the two, so a closed, reviewed issue
  without any label is taken for a \<^verbatim>\<open>linux\<close> metaphor and is published, and a lone
  category label without the tag matches as well.
\<close>

theorem unlabelled_issue_is_published:
  "isMetaphor [] \<and> find_metaphor [] = Some (''linux'', ''linux'') \<and>
   find_metaphor [''rust''] = Some (''rust'', ''rust'') \<and>
   map path (file_commits (calls (storyGenerator u (platform (Inr unlabelled_issue)) ctx))) =
     [''public/collections/stories/linux/'' @ slugify u ''A Tale of Borrow Checker'' @ ''.md''] \<and>
   label_updates (calls (storyGenerator u (platform (Inr unlabelled_issue)) ctx)) =
     [(ctx, [''published''])]"
  by (simp add: storyGenerator_def platform_def unlabelled_issue_def sample_issue_def
      isReviewerPresence_def isMetaphor_def find_metaphor_def metaphors_def label_match_def
      addLabelToClosedIssue_def Let_def createMetaphorFile_def createFileContent_def)

section \<open>The reviewer gate\<close>

text \<open>
  C2. When the fetched issue has no assignee from the allow-list, the handler sends
  nothing but the fetch: no file is committed and no label is changed, whatever the
  labels of the issue are.
\<close>

theorem no_reviewer_no_effects:
  assumes "issues_get cl ctx = Inr d"
    and "set (assignees d) \<inter> {''darkterminal'', ''mkubdev''} = {}"
  shows "calls (storyGenerator u cl ctx) = [IssuesGet ctx] \<and>
         file_commits (calls (storyGenerator u cl ctx)) = [] \<and>
         label_updates (calls (storyGenerator u cl ctx)) = [] \<and>
         unhandled (storyGenerator u cl ctx) = []"
proof -
  have "\<not> isReviewerPresence (assignees d)"
    using assms(2) by (auto simp: isReviewerPresence_def list_ex_iff)
  then show ?thesis
    using assms(1) by (simp add: storyGenerator_def)
qed

theorem no_reviewer_no_effects_witness:
  "issues_get (platform (Inr unassigned_issue)) sample_ctx = Inr unassigned_issue \<and>
   set (assignees unassigned_issue) \<inter> {''darkterminal'', ''mkubdev''} = {} \<and>
   state unassigned_issue = ''closed'' \<and> isMetaphor (labels unassigned_issue) \<and>
   file_commits (calls (storyGenerator sample_utils (platform (Inr unassigned_issue)) sample_ctx)) = [] \<and>
   label_updates (calls (storyGenerator sample_utils (platform (Inr unassigned_issue)) sample_ctx)) = []"
proof -
  have g: "issues_get (platform (Inr unassigned_issue)) sample_ctx = Inr unassigned_issue"
    by (simp add: platform_def)
  have a: "set (assignees unassigned_issue) \<inter> {''darkterminal'', ''mkubdev''} = {}"
    by (simp add: unassigned_issue_def)
  have m: "state unassigned_issue = ''closed'' \<and> isMetaphor (labels unassigned_issue)"
    by (simp add: unassigned_issue_def sample_issue_def isMetaphor_def metaphors_def
        label_match_def)
  show ?thesis
    using no_reviewer_no_effects [OF g a, of sample_utils] g a m by simp
qed

section \<open>The label update\<close>

lemma gate_calls:
  assumes "issues_get cl ctx = Inr d" and "state d = ''closed''"
    and "isReviewerPresence (assignees d)"
  shows "label_updates (calls (storyGenerator u cl ctx)) = [(ctx, labels d @ [''published''])]"
proof (cases "isMetaphor (labels d)")
  case True
  from isMetaphor_find [OF True] obtain c l where "find_metaphor (labels d) = Some (c, l)"
    by blast
  with True assms show ?thesis
    by (simp add: storyGenerator_def Let_def addLabelToClosedIssue_def createMetaphorFile_def
        createFileContent_def)
next
  case False
  with assms show ?thesis
    by (simp add: storyGenerator_def Let_def addLabelToClosedIssue_def)
qed

lemma no_second_commit:
  assumes "issues_get cl ctx = Inr d" and "''published'' \<in> set (labels d)"
  shows "file_commits (calls (storyGenerator u cl ctx)) = []"
  using assms published_not_metaphor [OF assms(2)]
  by (simp add: storyGenerator_def Let_def addLabelToClosedIssue_def)

text \<open>
  C6, as the claim states it, fails: the handler has no check for the sentinel. Run on
  an issue that already carries \<^verbatim>\<open>published\<close>, it asks for the sentinel once more,
  and the list it sends holds the sentinel twice.
\<close>

theorem sentinel_sent_twice:
  "''published'' \<in> set (labels published_issue) \<and>
   label_updates (calls (storyGenerator sample_utils (platform (Inr published_issue)) sample_ctx))
     = [(sample_ctx, [''metaphore'', ''rust'', ''published'', ''published''])] \<and>
   label_updates (calls (storyGenerator sample_utils (platform (Inr published_issue)) sample_ctx))
     \<noteq> [(sample_ctx, labels published_issue)] \<and>
   \<not> distinct [''metaphore'', ''rust'', ''published'', ''published'']"
  by (simp add: storyGenerator_def platform_def published_issue_def sample_issue_def
      isReviewerPresence_def isMetaphor_def metaphors_def label_match_def
      addLabelToClosedIssue_def Let_def sample_ctx_def)

text \<open>
  C6, amended. For a closed issue that passed the reviewer gate the handler sends one
  label update, and the list it sends is the labels of the issue, in their order,
  followed by \<^verbatim>\<open>published\<close>: every label present is kept, and as a set the list is
  the union of the labels present and the sentinel. The sentinel is appended without a
  check, so the list holds it once more than the issue did; on an issue that already
  carries it the list repeats it, and that run commits nothing.
\<close>

theorem label_update_appends_sentinel:
  assumes "issues_get cl ctx = Inr d" and "state d = ''closed''"
    and "isReviewerPresence (assignees d)"
  shows "label_updates (calls (storyGenerator u cl ctx)) = [(ctx, labels d @ [''published''])] \<and>
         set (labels d @ [''published'']) = set (labels d) \<union> {''published''} \<and>
         prefix (labels d) (labels d @ [''published'']) \<and>
         count_list (labels d @ [''published'']) ''published''
           = Suc (count_list (labels d) ''published'') \<and>
         (''published'' \<in> set (labels d) \<longrightarrow>
            \<not> distinct (labels d @ [''published'']) \<and>
            file_commits (calls (storyGenerator u cl ctx)) = [])"
  using gate_calls [OF assms, of u] no_second_commit [OF assms(1), of u]
  by simp

theorem label_update_appends_sentinel_witness:
  "issues_get (platform (Inr sample_issue)) sample_ctx = Inr sample_issue \<and>
   state sample_issue = ''closed'' \<and> isReviewerPresence (assignees sample_issue) \<and>
   label_updates (calls (storyGenerator sample_utils (platform (Inr sample_issue)) sample_ctx))
     = [(sample_ctx, [''metaphore'', ''rust'', ''published''])] \<and>
   issues_get (platform (Inr published_issue)) sample_ctx = Inr published_issue \<and>
   state published_issue = ''closed'' \<and> isReviewerPresence (assignees published_issue) \<and>
   ''published'' \<in> set (labels published_issue) \<and>
   count_list (labels published_issue @ [''published'']) ''published'' = 2 \<and>
   file_commits (calls (storyGenerator sample_utils (platform (Inr published_issue)) sample_ctx)) = []"
proof -
  have g: "issues_get (platform (Inr sample_issue)) sample_ctx = Inr sample_issue"
    "issues_get (platform (Inr published_issue)) sample_ctx = Inr published_issue"
    by (simp_all add: platform_def)
  have s: "state sample_issue = ''closed''" "state published_issue = ''closed''"
    by (simp_all add: sample_issue_def published_issue_def)
  have r: "isReviewerPresence (assignees sample_issue)"
    "isReviewerPresence (assignees published_issue)"
    by (simp_all add: sample_issue_def published_issue_def isReviewerPresence_def)
  have l: "labels sample_issue = [''metaphore'', ''rust'']"
    "labels published_issue = [''metaphore'', ''rust'', ''published'']"
    by (simp_all add: sample_issue_def published_issue_def)
  show ?thesis
    using label_update_appends_sentinel [OF g(1) s(1) r(1), of sample_utils]
      label_update_appends_sentinel [OF g(2) s(2) r(2), of sample_utils] g s r
    by (simp add: l)
qed

text \<open>
  C7. The claim asks that the sentinel is added only after a match and a successful
  commit. The code sends the label update after the \<^verbatim>\<open>if (isMetaphor)\<close> block and does
  not wait for the commit: a closed, reviewed issue labelled \<^verbatim>\<open>bug\<close> matches no
  category, does not carry the sentinel, and the request that adds it is sent and
  accepted; and when the platform rejects the commit the label update has been sent all
  the same, the rejection being left unhandled.
\<close>

theorem published_without_publication:
  "\<not> isMetaphor [''bug''] \<and>
   calls (storyGenerator u (platform (Inr bug_issue)) ctx)
     = [IssuesGet ctx, AddLabels ctx [''bug'', ''published'']] \<and>
   ''published'' \<notin> set (labels bug_issue) \<and>
   issues_addLabels (platform (Inr bug_issue)) ctx [''bug'', ''published''] = Inr () \<and>
   unhandled (storyGenerator u (platform (Inr bug_issue)) ctx) = [] \<and>
   unhandled (storyGenerator u (rejecting_commits (platform (Inr sample_issue))) ctx)
     = [''Validation Failed''] \<and>
   label_updates (calls (storyGenerator u (rejecting_commits (platform (Inr sample_issue))) ctx))
     = [(ctx, [''metaphore'', ''rust'', ''published''])]"
  by (simp add: storyGenerator_def platform_def bug_issue_def sample_issue_def
      isReviewerPresence_def isMetaphor_def find_metaphor_def metaphors_def label_match_def
      addLabelToClosedIssue_def Let_def rejecting_commits_def createMetaphorFile_def
      createFileContent_def)

section \<open>The event router\<close>



text \<open>
  C9, as the claim states it, fails: when the fetch of the issue is rejected the run is
  not marked failed.
\<close>

theorem fetch_failure_not_reported:
  "issues_get (platform (Inl ''Not Found'')) sample_ctx = Inl ''Not Found'' \<and>
   failed (main sample_utils no_greeting (Inr (platform (Inl ''Not Found''))) (Some ''closed'')
             sample_ctx) = None \<and>
   failed (main sample_utils no_greeting (Inr (platform (Inl ''Not Found''))) (Some ''closed'')
             sample_ctx) \<noteq> Some ''Not Found''"
  by (simp add: main_def platform_def Let_def)

text \<open>
  C9, amended. An error raised by the fetch of the issue is caught by the story
  generator itself: it sends nothing more and resolves to false, and the run is not
  marked failed. The catch at the top level marks the run failed, with the message of
  the exception as reason, for the exceptions that reach it: those thrown while the
  inputs are read and the client is built, and those of the greeting handler.
\<close>

theorem fetch_failure_caught_in_handler:
  "(issues_get cl ctx = Inl e \<longrightarrow>
      storyGenerator u cl ctx = \<lparr>calls = [IssuesGet ctx], unhandled = [], returned = Some False\<rparr> \<and>
      main u g (Inr cl) (Some ''closed'') ctx =
        \<lparr>invoked = Some StoryGenerator, sent = [IssuesGet ctx], rejected = [], failed = None\<rparr>) \<and>
   main u g (Inl e) a ctx = \<lparr>invoked = None, sent = [], rejected = [], failed = Some e\<rparr> \<and>
   (g cl ctx = Inl e \<longrightarrow> failed (main u g (Inr cl) (Some ''opened'') ctx) = Some e)"
  by (simp add: main_def storyGenerator_def caught_def Let_def)

theorem fetch_failure_caught_in_handler_witness:
  "issues_get (platform (Inl ''Not Found'')) sample_ctx = Inl ''Not Found'' \<and>
   returned (storyGenerator sample_utils (platform (Inl ''Not Found'')) sample_ctx) = Some False \<and>
   failed (main sample_utils no_greeting (Inr (platform (Inl ''Not Found''))) (Some ''closed'')
             sample_ctx) = None \<and>
   failing_greeting (platform (Inr sample_issue)) sample_ctx = Inl ''Bad credentials'' \<and>
   failed (main sample_utils failing_greeting (Inr (platform (Inr sample_issue)))
             (Some ''opened'') sample_ctx) = Some ''Bad credentials''"
proof -
  have g: "issues_get (platform (Inl ''Not Found'')) sample_ctx = Inl ''Not Found''"
    by (simp add: platform_def)
  have f: "failing_greeting (platform (Inr sample_issue)) sample_ctx = Inl ''Bad credentials''"
    by (simp add: failing_greeting_def)
  show ?thesis
    using g f
      fetch_failure_caught_in_handler [of "platform (Inl ''Not Found'')" sample_ctx "''Not Found''"
        sample_utils no_greeting]
      fetch_failure_caught_in_handler [of "platform (Inr sample_issue)" sample_ctx
        "''Bad credentials''" sample_utils failing_greeting]
    by simp
qed

section \<open>The renderer\<close>

lemma pattern_free_tail: "pattern_free (c # r) \<Longrightarrow> pattern_free r"
  by (simp add: pattern_free_def sublist_Cons_right)

lemma pattern_free_head:
  "pattern_free (c # d # r) \<Longrightarrow>
     \<not> (c = CHR ''$'' \<and> (d = CHR ''$'' \<or> d = CHR ''&'' \<or> d = CHR 0x60 \<or> d = CHR 0x27))"
  by (auto simp: pattern_free_def sublist_Cons_right)

lemma dollar_free_pattern_free: "CHR ''$'' \<notin> set v \<Longrightarrow> pattern_free v"
  unfolding pattern_free_def by (auto dest!: set_mono_sublist)

lemma getSubstitution_plain:
  "pattern_free r \<Longrightarrow> getSubstitution m p f r = r"
proof (induction m p f r rule: getSubstitution.induct)
  case (1 m p f c d r)
  from pattern_free_head [OF "1.prems"] pattern_free_tail [OF "1.prems"] "1.IH"(5)
  show ?case by auto
qed simp_all

lemma replace_all_pre:
  assumes "pattern_free repl"
  shows "replace_all pat repl pre s = replace_all pat repl pre' s"
proof (induction "length s" arbitrary: s pre pre' rule: less_induct)
  case less
  show ?case
  proof (cases s)
    case Nil
    then show ?thesis by simp
  next
    case (Cons c cs)
    show ?thesis
    proof (cases "pat \<noteq> [] \<and> prefix pat (c # cs)")
      case True
      then have "length (drop (length pat) (c # cs)) < length s"
        using Cons by (cases pat) simp_all
      from less [OF this, of "pre @ pat" "pre' @ pat"] True Cons assms show ?thesis
        by (simp add: getSubstitution_plain)
    next
      case False
      have "length cs < length s" using Cons by simp
      from less [OF this, of "pre @ [c]" "pre' @ [c]"] False Cons show ?thesis
        by auto
    qed
  qed
qed

lemma replace_all_reset:
  "pattern_free repl \<Longrightarrow> pre \<noteq> [] \<Longrightarrow> replace_all pat repl pre s = replace_all pat repl [] s"
  by (rule replace_all_pre)

lemma no_match_across:
  assumes "\<not> prefix pat x" and "k \<notin> set (tl pat)" and "pat \<noteq> []" and "x \<noteq> []"
  shows "\<not> prefix pat (x @ k # s)"
proof
  assume "prefix pat (x @ k # s)"
  then have "prefix pat x \<or> (\<exists>us. pat = x @ us \<and> prefix us (k # s))"
    by (rule prefix_append [THEN iffD1])
  with assms(1) obtain us where us: "pat = x @ us" "prefix us (k # s)"
    by blast
  show False
  proof (cases us)
    case Nil
    with us assms(1) show False by simp
  next
    case (Cons y ys)
    with us have "y = k" by simp
    with us Cons assms(4) have "k \<in> set (tl pat)" by (cases x) simp_all
    with assms(2) show False by simp
  qed
qed

lemma replace_all_upto:
  assumes "pattern_free repl" and "\<not> sublist pat x" and "k \<notin> set (tl pat)"
  shows "replace_all pat repl [] (x @ k # s) = x @ replace_all pat repl [] (k # s)"
  using assms(2)
proof (induction x)
  case Nil
  then show ?case by simp
next
  case (Cons c x)
  from Cons.prems have np: "\<not> prefix pat (c # x)" and ns: "\<not> sublist pat x"
    by (auto simp: sublist_Cons_right)
  from np have ne: "pat \<noteq> []" by auto
  have "\<not> prefix pat ((c # x) @ k # s)"
    using no_match_across [OF np assms(3) ne] by simp
  then have "replace_all pat repl [] ((c # x) @ k # s) = c # replace_all pat repl [c] (x @ k # s)"
    by simp
  also have "\<dots> = c # replace_all pat repl [] (x @ k # s)"
    using replace_all_pre [OF assms(1), of pat "[c]" _ "[]"] by simp
  finally show ?case
    using Cons.IH [OF ns] by simp
qed

lemma replace_all_absent:
  assumes "pattern_free repl" and "\<not> sublist pat x"
  shows "replace_all pat repl [] x = x"
  using assms(2)
proof (induction x)
  case Nil
  then show ?case by simp
next
  case (Cons c x)
  from Cons.prems have np: "\<not> prefix pat (c # x)" and ns: "\<not> sublist pat x"
    by (auto simp: sublist_Cons_right)
  from np have "replace_all pat repl [] (c # x) = c # replace_all pat repl [c] x"
    by simp
  also have "\<dots> = c # replace_all pat repl [] x"
    using replace_all_pre [OF assms(1), of pat "[c]" _ "[]"] by simp
  finally show ?case
    using Cons.IH [OF ns] by simp
qed

lemma replace_all_match:
  assumes "pattern_free repl" and "pat \<noteq> []"
  shows "replace_all pat repl [] (pat @ s) = repl @ replace_all pat repl [] s"
proof -
  from assms(2) obtain c cs where p: "pat = c # cs" by (cases pat) auto
  have "replace_all pat repl [] (pat @ s)
          = getSubstitution pat [] s repl @ replace_all pat repl pat s"
    using p by simp
  then show ?thesis
    using assms replace_all_pre [OF assms(1), of pat pat s "[]"]
    by (simp add: getSubstitution_plain)
qed

lemma replace_leftmost:
  assumes "pattern_free v" and "p \<in> set placeholders" and "\<not> sublist p x"
  shows "js_replace p v (x @ p @ y) = x @ v @ js_replace p v y"
proof -
  from assms(2) obtain q where p: "p = CHR ''{'' # q" "CHR ''{'' \<notin> set q"
    by (auto simp: placeholders_def)
  have "replace_all p v [] (x @ CHR ''{'' # (q @ y)) = x @ replace_all p v [] (CHR ''{'' # (q @ y))"
    using p by (intro replace_all_upto assms) simp
  moreover have "replace_all p v [] (p @ y) = v @ replace_all p v [] y"
    using p by (intro replace_all_match assms) simp
  ultimately show ?thesis
    using p by (simp add: js_replace_def)
qed

lemma replace_all_line:
  assumes "pattern_free repl" and "NL \<notin> set pat"
  shows "replace_all pat repl [] (x @ NL # s)
           = replace_all pat repl [] x @ NL # replace_all pat repl [] s"
proof (induction "length x" arbitrary: x rule: less_induct)
  case less
  show ?case
  proof (cases x)
    case Nil
    have "\<not> (pat \<noteq> [] \<and> prefix pat (NL # s))"
      using assms(2) by (cases pat) auto
    then show ?thesis
      using Nil replace_all_pre [OF assms(1), of pat "[NL]" s "[]"] by auto
  next
    case (Cons c cs)
    show ?thesis
    proof (cases "pat \<noteq> [] \<and> prefix pat (c # cs)")
      case True
      then have len: "length pat \<le> length (c # cs)"
        by (auto dest: prefix_length_le)
      from True have "prefix pat (c # cs)" by simp
      then have pre: "prefix pat ((c # cs) @ NL # s)"
        by (rule prefix_prefix)
      from True have shorter: "length (drop (length pat) (c # cs)) < length x"
        using Cons by (cases pat) simp_all
      have d: "drop (length pat) ((c # cs) @ NL # s) = drop (length pat) (c # cs) @ NL # s"
      proof -
        from len have "length pat - length (c # cs) = 0" by simp
        then show ?thesis by (simp only: drop_append drop_0)
      qed
      have "replace_all pat repl [] ((c # cs) @ NL # s)
              = repl @ replace_all pat repl [] (drop (length pat) (c # cs) @ NL # s)"
        using True pre d replace_all_pre [OF assms(1), of pat pat _ "[]"]
        by (simp add: getSubstitution_plain [OF assms(1)] del: drop_append)
      also have "\<dots> = repl @ replace_all pat repl [] (drop (length pat) (c # cs))
                        @ NL # replace_all pat repl [] s"
        using less [OF shorter] by simp
      finally have lhs: "replace_all pat repl [] ((c # cs) @ NL # s)
              = repl @ replace_all pat repl [] (drop (length pat) (c # cs))
                  @ NL # replace_all pat repl [] s" .
      have "replace_all pat repl [] (c # cs)
              = repl @ replace_all pat repl [] (drop (length pat) (c # cs))"
        using True replace_all_pre [OF assms(1), of pat pat _ "[]"]
        by (simp add: getSubstitution_plain [OF assms(1)])
      with lhs show ?thesis
        using Cons by simp
    next
      case False
      have nm: "\<not> (pat \<noteq> [] \<and> prefix pat ((c # cs) @ NL # s))"
      proof
        assume a: "pat \<noteq> [] \<and> prefix pat ((c # cs) @ NL # s)"
        with False have np: "\<not> prefix pat (c # cs)" by simp
        have "NL \<notin> set (tl pat)"
          using assms(2) a by (cases pat) auto
        from no_match_across [OF np this] a show False by simp
      qed
      have shorter: "length cs < length x" using Cons by simp
      have "replace_all pat repl [] ((c # cs) @ NL # s)
              = c # replace_all pat repl [] (cs @ NL # s)"
        using nm replace_all_pre [OF assms(1), of pat "[c]" _ "[]"] by auto
      also have "\<dots> = c # replace_all pat repl [] cs @ NL # replace_all pat repl [] s"
        using less [OF shorter] by simp
      finally have lhs: "replace_all pat repl [] ((c # cs) @ NL # s)
              = c # replace_all pat repl [] cs @ NL # replace_all pat repl [] s" .
      have "replace_all pat repl [] (c # cs) = c # replace_all pat repl [] cs"
        using False replace_all_pre [OF assms(1), of pat "[c]" _ "[]"] by auto
      with lhs show ?thesis
        using Cons by simp
    qed
  qed
qed

lemma render_composed:
  assumes pf: "pattern_free t" "pattern_free a" "pattern_free d" "pattern_free category"
      "pattern_free b"
  shows "replacedTemplate t a d category b =
     front_matter_document
       (js_replace ''{content}'' b (js_replace ''{language}'' category
          (js_replace ''{created_at}'' d (js_replace ''{author}'' a t))))
       (js_replace ''{content}'' b (js_replace ''{language}'' category
          (js_replace ''{created_at}'' d a)))
       (js_replace ''{content}'' b (js_replace ''{language}'' category d))
       (js_replace ''{content}'' b category)
       b"
proof -
  have s1: "js_replace ''{title}'' t template =
      ''---'' @ NL # ''layout: post'' @ NL # ''title: '' @ t @ NL # ''author: {author}'' @ NL #
      ''created_at: {created_at}'' @ NL # ''language: {language}'' @ NL # ''---'' @ NL # NL #
      ''{content}''"
    using pf by (simp add: js_replace_def template_def getSubstitution_plain replace_all_reset)
  have s2: "\<And>X. js_replace ''{author}'' a
     (''---'' @ NL # ''layout: post'' @ NL # ''title: '' @ X @ NL # ''author: {author}'' @ NL #
      ''created_at: {created_at}'' @ NL # ''language: {language}'' @ NL # ''---'' @ NL # NL #
      ''{content}'') =
      ''---'' @ NL # ''layout: post'' @ NL # ''title: '' @ js_replace ''{author}'' a X @ NL #
      ''author: '' @ a @ NL #
      ''created_at: {created_at}'' @ NL # ''language: {language}'' @ NL # ''---'' @ NL # NL #
      ''{content}''"
    using pf by (simp add: js_replace_def getSubstitution_plain replace_all_reset replace_all_line)
  have s3: "\<And>X Y. js_replace ''{created_at}'' d
     (''---'' @ NL # ''layout: post'' @ NL # ''title: '' @ X @ NL # ''author: '' @ Y @ NL #
      ''created_at: {created_at}'' @ NL # ''language: {language}'' @ NL # ''---'' @ NL # NL #
      ''{content}'') =
      ''---'' @ NL # ''layout: post'' @ NL # ''title: '' @ js_replace ''{created_at}'' d X @ NL #
      ''author: '' @ js_replace ''{created_at}'' d Y @ NL #
      ''created_at: '' @ d @ NL # ''language: {language}'' @ NL # ''---'' @ NL # NL #
      ''{content}''"
    using pf by (simp add: js_replace_def getSubstitution_plain replace_all_reset replace_all_line)
  have s4: "\<And>X Y Z. js_replace ''{language}'' category
     (''---'' @ NL # ''layout: post'' @ NL # ''title: '' @ X @ NL # ''author: '' @ Y @ NL #
      ''created_at: '' @ Z @ NL # ''language: {language}'' @ NL # ''---'' @ NL # NL #
      ''{content}'') =
      ''---'' @ NL # ''layout: post'' @ NL # ''title: '' @ js_replace ''{language}'' category X @ NL #
      ''author: '' @ js_replace ''{language}'' category Y @ NL #
      ''created_at: '' @ js_replace ''{language}'' category Z @ NL #
      ''language: '' @ category @ NL # ''---'' @ NL # NL # ''{content}''"
    using pf by (simp add: js_replace_def getSubstitution_plain replace_all_reset replace_all_line)
  have s5: "\<And>X Y Z W. js_replace ''{content}'' b
     (''---'' @ NL # ''layout: post'' @ NL # ''title: '' @ X @ NL # ''author: '' @ Y @ NL #
      ''created_at: '' @ Z @ NL # ''language: '' @ W @ NL # ''---'' @ NL # NL #
      ''{content}'') =
      front_matter_document (js_replace ''{content}'' b X) (js_replace ''{content}'' b Y)
        (js_replace ''{content}'' b Z) (js_replace ''{content}'' b W) b"
    using pf
    by (simp add: js_replace_def getSubstitution_plain replace_all_reset replace_all_line
        front_matter_document_def)
  show ?thesis
    by (simp only: replacedTemplate_def placeholders_def zip_Cons_Cons zip_Nil foldl_Cons foldl_Nil
        prod.case s1 s2 s3 s4 s5)
qed

lemma js_replace_absent: "pattern_free v \<Longrightarrow> \<not> sublist p x \<Longrightarrow> js_replace p v x = x"
  by (simp add: js_replace_def replace_all_absent)

lemma render_verbatim:
  assumes "pattern_free t" "pattern_free a" "pattern_free d" "pattern_free category"
      "pattern_free b"
    and "\<not> sublist ''{author}'' t" "\<not> sublist ''{created_at}'' t"
      "\<not> sublist ''{language}'' t" "\<not> sublist ''{content}'' t"
    and "\<not> sublist ''{created_at}'' a" "\<not> sublist ''{language}'' a"
      "\<not> sublist ''{content}'' a"
    and "\<not> sublist ''{language}'' d" "\<not> sublist ''{content}'' d"
    and "\<not> sublist ''{content}'' category"
  shows "replacedTemplate t a d category b = front_matter_document t a d category b"
  using assms by (simp add: render_composed js_replace_absent)

lemma brace_free_no_token:
  assumes "CHR ''{'' \<notin> set v" and "CHR ''{'' \<in> set p"
  shows "\<not> sublist p v"
proof
  assume "sublist p v"
  then have "set p \<subseteq> set v" by (rule set_mono_sublist)
  with assms show False by blast
qed

lemma plain_values_leave_no_placeholder:
  assumes "pattern_free t" "pattern_free a" "pattern_free d" "pattern_free category"
      "pattern_free b"
    and "CHR ''{'' \<notin> set t" "CHR ''{'' \<notin> set a" "CHR ''{'' \<notin> set d"
      "CHR ''{'' \<notin> set category" "CHR ''{'' \<notin> set b"
    and "p \<in> set placeholders"
  shows "\<not> sublist p (replacedTemplate t a d category b)"
proof -
  have "replacedTemplate t a d category b = front_matter_document t a d category b"
    using assms(1-10) by (intro render_verbatim brace_free_no_token) simp_all
  moreover have "CHR ''{'' \<notin> set (front_matter_document t a d category b)"
    using assms(6-10) by (simp add: front_matter_document_def)
  moreover have "CHR ''{'' \<in> set p"
    using assms(11) by (auto simp: placeholders_def)
  ultimately show ?thesis
    by (simp add: brace_free_no_token)
qed

text \<open>
  C3, as the claim states it, fails: the substitutions run one after another on the text
  rewritten so far, so a token of a later step inside the title is replaced by that
  later field. Here the title is \<^verbatim>\<open>{content}\<close> and the title line of the output
  shows the body.
\<close>

theorem placeholder_in_title_is_replaced:
  "replacedTemplate ''{content}'' ''alice'' ''2023-04-01T10:00:00Z'' ''rust'' ''Once upon a compile...''
   = ''---'' @ NL # ''layout: post'' @ NL # ''title: Once upon a compile...'' @ NL #
     ''author: alice'' @ NL # ''created_at: 2023-04-01T10:00:00Z'' @ NL # ''language: rust'' @ NL #
     ''---'' @ NL # NL # ''Once upon a compile...'' \<and>
   \<not> sublist ''{content}''
     (replacedTemplate ''{content}'' ''alice'' ''2023-04-01T10:00:00Z'' ''rust''
        ''Once upon a compile...'') \<and>
   replacedTemplate ''{content}'' ''alice'' ''2023-04-01T10:00:00Z'' ''rust'' ''Once upon a compile...''
   \<noteq> front_matter_document ''{content}'' ''alice'' ''2023-04-01T10:00:00Z'' ''rust''
        ''Once upon a compile...''"
  by code_simp

text \<open>
  C3, amended. For field values without any of the replacement patterns \<^verbatim>\<open>$$\<close>,
  \<^verbatim>\<open>$&\<close>, \<^verbatim>\<open>$`\<close>, \<^verbatim>\<open>$'\<close> (a dollar sign by itself is allowed), the
  renderer applies the five substitutions in the order title, author, created_at,
  language, content, each to the text the steps before it produced. Each step replaces
  every occurrence of its token, matched as literal text from left to right: the text up
  to the first occurrence is kept, the occurrence becomes the value, and the rest is
  treated in the same way. The output is the front-matter document in which every field
  value has been rewritten by the steps that come after its own. So a placeholder token
  inside a field value stands in the output as it is when its step is not later than
  that of the field (every token inside the body, \<^verbatim>\<open>{title}\<close> in any field), and is
  replaced by the value of the later field otherwise; when no value contains the token
  of a later step, every value stands in the output as it is.
\<close>

theorem render_sequential:
  assumes "pattern_free t" "pattern_free a" "pattern_free d" "pattern_free category"
      "pattern_free b"
  shows "replacedTemplate t a d category b =
           front_matter_document
             (js_replace ''{content}'' b (js_replace ''{language}'' category
                (js_replace ''{created_at}'' d (js_replace ''{author}'' a t))))
             (js_replace ''{content}'' b (js_replace ''{language}'' category
                (js_replace ''{created_at}'' d a)))
             (js_replace ''{content}'' b (js_replace ''{language}'' category d))
             (js_replace ''{content}'' b category)
             b \<and>
         (\<forall>p \<in> set placeholders. \<forall>v x y. pattern_free v \<and> \<not> sublist p x \<longrightarrow>
            js_replace p v (x @ p @ y) = x @ v @ js_replace p v y \<and> js_replace p v x = x) \<and>
         (\<not> sublist ''{author}'' t \<and> \<not> sublist ''{created_at}'' t \<and>
          \<not> sublist ''{language}'' t \<and> \<not> sublist ''{content}'' t \<and>
          \<not> sublist ''{created_at}'' a \<and> \<not> sublist ''{language}'' a \<and>
          \<not> sublist ''{content}'' a \<and>
          \<not> sublist ''{language}'' d \<and> \<not> sublist ''{content}'' d \<and>
          \<not> sublist ''{content}'' category \<longrightarrow>
          replacedTemplate t a d category b = front_matter_document t a d category b)"
proof (intro conjI)
  show "replacedTemplate t a d category b =
           front_matter_document
             (js_replace ''{content}'' b (js_replace ''{language}'' category
                (js_replace ''{created_at}'' d (js_replace ''{author}'' a t))))
             (js_replace ''{content}'' b (js_replace ''{language}'' category
                (js_replace ''{created_at}'' d a)))
             (js_replace ''{content}'' b (js_replace ''{language}'' category d))
             (js_replace ''{content}'' b category)
             b"
    using assms by (rule render_composed)
  show "\<forall>p \<in> set placeholders. \<forall>v x y. pattern_free v \<and> \<not> sublist p x \<longrightarrow>
            js_replace p v (x @ p @ y) = x @ v @ js_replace p v y \<and> js_replace p v x = x"
    by (blast intro: replace_leftmost js_replace_absent)
  show "\<not> sublist ''{author}'' t \<and> \<not> sublist ''{created_at}'' t \<and>
          \<not> sublist ''{language}'' t \<and> \<not> sublist ''{content}'' t \<and>
          \<not> sublist ''{created_at}'' a \<and> \<not> sublist ''{language}'' a \<and>
          \<not> sublist ''{content}'' a \<and>
          \<not> sublist ''{language}'' d \<and> \<not> sublist ''{content}'' d \<and>
          \<not> sublist ''{content}'' category \<longrightarrow>
          replacedTemplate t a d category b = front_matter_document t a d category b"
    using assms by (blast intro: render_verbatim)
qed

theorem render_sequential_witness:
  "pattern_free ''{content} and {content}'' \<and> pattern_free ''alice'' \<and>
   pattern_free ''2023-04-01T10:00:00Z'' \<and> pattern_free ''rust'' \<and> pattern_free ''B'' \<and>
   replacedTemplate ''{content} and {content}'' ''alice'' ''2023-04-01T10:00:00Z'' ''rust'' ''B''
     = front_matter_document ''B and B'' ''alice'' ''2023-04-01T10:00:00Z'' ''rust'' ''B'' \<and>
   ''{title}'' \<in> set placeholders \<and> pattern_free ''US$ 5'' \<and> \<not> sublist ''{title}'' ''a'' \<and>
   js_replace ''{title}'' ''US$ 5'' (''a'' @ ''{title}'' @ ''{title}'')
     = ''a'' @ ''US$ 5'' @ js_replace ''{title}'' ''US$ 5'' ''{title}'' \<and>
   pattern_free ''A {title} tale for US$ 5'' \<and>
   pattern_free ''Once {title} by {author}: {content}'' \<and>
   replacedTemplate ''A {title} tale for US$ 5'' ''alice'' ''2023-04-01T10:00:00Z'' ''rust''
     ''Once {title} by {author}: {content}''
   = ''---'' @ NL # ''layout: post'' @ NL # ''title: A {title} tale for US$ 5'' @ NL #
     ''author: alice'' @ NL # ''created_at: 2023-04-01T10:00:00Z'' @ NL # ''language: rust'' @ NL #
     ''---'' @ NL # NL # ''Once {title} by {author}: {content}''"
proof -
  have pf: "pattern_free ''{content} and {content}''" "pattern_free ''alice''"
    "pattern_free ''2023-04-01T10:00:00Z''" "pattern_free ''rust''" "pattern_free ''B''"
    "pattern_free ''US$ 5''" "pattern_free ''A {title} tale for US$ 5''"
    "pattern_free ''Once {title} by {author}: {content}''"
    by (simp_all add: pattern_free_def sublist_code)
  have ev: "js_replace ''{content}'' ''B'' (js_replace ''{language}'' ''rust''
       (js_replace ''{created_at}'' ''2023-04-01T10:00:00Z''
          (js_replace ''{author}'' ''alice'' ''{content} and {content}''))) = ''B and B''"
    "js_replace ''{content}'' ''B'' (js_replace ''{language}'' ''rust''
       (js_replace ''{created_at}'' ''2023-04-01T10:00:00Z'' ''alice'')) = ''alice''"
    "js_replace ''{content}'' ''B'' (js_replace ''{language}'' ''rust'' ''2023-04-01T10:00:00Z'')
       = ''2023-04-01T10:00:00Z''"
    "js_replace ''{content}'' ''B'' ''rust'' = ''rust''"
    by code_simp+
  have m: "''{title}'' \<in> set placeholders" "\<not> sublist ''{title}'' ''a''"
    by (simp_all add: placeholders_def sublist_code)
  have nt: "\<not> sublist ''{author}'' ''A {title} tale for US$ 5''"
    "\<not> sublist ''{created_at}'' ''A {title} tale for US$ 5''"
    "\<not> sublist ''{language}'' ''A {title} tale for US$ 5''"
    "\<not> sublist ''{content}'' ''A {title} tale for US$ 5''"
    "\<not> sublist ''{created_at}'' ''alice''" "\<not> sublist ''{language}'' ''alice''"
    "\<not> sublist ''{content}'' ''alice''"
    "\<not> sublist ''{language}'' ''2023-04-01T10:00:00Z''"
    "\<not> sublist ''{content}'' ''2023-04-01T10:00:00Z''"
    "\<not> sublist ''{content}'' ''rust''"
    by (simp_all add: sublist_code)
  note first = render_sequential [OF pf(1) pf(2) pf(3) pf(4) pf(5)]
  note second = render_sequential [OF pf(7) pf(2) pf(3) pf(4) pf(8)]
  from first have composed:
    "replacedTemplate ''{content} and {content}'' ''alice'' ''2023-04-01T10:00:00Z'' ''rust'' ''B''
     = front_matter_document ''B and B'' ''alice'' ''2023-04-01T10:00:00Z'' ''rust'' ''B''"
    by (simp only: ev)
  from first m pf(6) have leftmost:
    "js_replace ''{title}'' ''US$ 5'' (''a'' @ ''{title}'' @ ''{title}'')
     = ''a'' @ ''US$ 5'' @ js_replace ''{title}'' ''US$ 5'' ''{title}''"
    by blast
  from second nt have verbatim:
    "replacedTemplate ''A {title} tale for US$ 5'' ''alice'' ''2023-04-01T10:00:00Z'' ''rust''
       ''Once {title} by {author}: {content}''
     = front_matter_document ''A {title} tale for US$ 5'' ''alice'' ''2023-04-01T10:00:00Z'' ''rust''
       ''Once {title} by {author}: {content}''"
    by blast
  show ?thesis
    using pf m composed leftmost verbatim
    by (simp add: front_matter_document_def)
qed

text \<open>
  C4. The claim asks that values without an opening brace leave no placeholder behind.
  The replacement text is handed to \<^verbatim>\<open>replace\<close> as it is, where \<^verbatim>\<open>$&\<close> stands
  for the matched text: the title \<^verbatim>\<open>$&\<close> has no brace, and the rendered document
  still contains \<^verbatim>\<open>{title}\<close>.
\<close>

theorem dollar_pattern_leaves_placeholder:
  "CHR ''{'' \<notin> set ''$&'' \<and> CHR ''{'' \<notin> set ''alice'' \<and> CHR ''{'' \<notin> set ''2023-04-01T10:00:00Z'' \<and>
   CHR ''{'' \<notin> set ''rust'' \<and> CHR ''{'' \<notin> set ''Once upon a compile...'' \<and>
   replacedTemplate ''$&'' ''alice'' ''2023-04-01T10:00:00Z'' ''rust'' ''Once upon a compile...''
   = ''---'' @ NL # ''layout: post'' @ NL # ''title: {title}'' @ NL #
     ''author: alice'' @ NL # ''created_at: 2023-04-01T10:00:00Z'' @ NL # ''language: rust'' @ NL #
     ''---'' @ NL # NL # ''Once upon a compile...'' \<and>
   sublist ''{title}''
     (replacedTemplate ''$&'' ''alice'' ''2023-04-01T10:00:00Z'' ''rust'' ''Once upon a compile...'')"
  by code_simp

section \<open>The publisher\<close>

lemma category_pattern_free:
  "(c, l) \<in> set metaphors \<Longrightarrow> pattern_free l \<and> \<not> sublist ''{content}'' l \<and> l = c"
  by (auto simp: metaphors_def pattern_free_def sublist_code)

lemma commit_is_encoded_render:
  assumes "issues_get cl ctx = Inr d" and "state d = ''closed''"
    and "isReviewerPresence (assignees d)"
    and "find_metaphor (labels d) = Some (c, l)"
  shows "file_commits (calls (storyGenerator u cl ctx)) =
           [\<lparr>owner = owner ctx, repo = repo ctx,
             path = ''public/collections/stories/'' @ l @ ''/'' @ slugify u (title d) @ ''.md'',
             message = ''docs(generate): new metaphor from @'' @ user_login d,
             content = toBase64 (replacedTemplate (title d) (user_login d) (created_at d) l
                         (toString (body d))),
             committer = \<lparr>name = ghBotUsername u, email = ghBotEmail u\<rparr>,
             author = \<lparr>name = ghBotUsername u, email = ghBotEmail u\<rparr>\<rparr>]"
proof -
  from find_metaphor_isMetaphor [OF assms(4)] have "isMetaphor (labels d)" by simp
  with assms show ?thesis
    by (simp add: storyGenerator_def Let_def addLabelToClosedIssue_def createMetaphorFile_def
        createFileContent_def)
qed

lemma commit_is_front_matter:
  assumes "issues_get cl ctx = Inr d" and "state d = ''closed''"
    and "isReviewerPresence (assignees d)"
    and "find_metaphor (labels d) = Some (c, l)"
    and "pattern_free (title d)" "pattern_free (user_login d)" "pattern_free (created_at d)"
      "pattern_free (toString (body d))"
    and "\<not> sublist ''{author}'' (title d)" "\<not> sublist ''{created_at}'' (title d)"
      "\<not> sublist ''{language}'' (title d)" "\<not> sublist ''{content}'' (title d)"
    and "\<not> sublist ''{created_at}'' (user_login d)" "\<not> sublist ''{language}'' (user_login d)"
      "\<not> sublist ''{content}'' (user_login d)"
    and "\<not> sublist ''{language}'' (created_at d)" "\<not> sublist ''{content}'' (created_at d)"
  shows "map content (file_commits (calls (storyGenerator u cl ctx))) =
           [toBase64 (front_matter_document (title d) (user_login d) (created_at d) c
              (toString (body d)))]"
proof -
  from find_metaphor_isMetaphor [OF assms(4)] have "(c, l) \<in> set metaphors" by simp
  from category_pattern_free [OF this]
  have cat: "pattern_free l" "\<not> sublist ''{content}'' l" "l = c" by blast+
  have "replacedTemplate (title d) (user_login d) (created_at d) l (toString (body d))
          = front_matter_document (title d) (user_login d) (created_at d) l (toString (body d))"
    using assms(5-17) cat(1,2) by (intro render_verbatim)
  then show ?thesis
    using commit_is_encoded_render [OF assms(1-4), of u] cat(3) by simp
qed

text \<open>
  C5. The claim asks that the committed file ends with the body of the issue as it is.
  The file is the base64 encoding of the rendered template and goes to the path the
  claim names, but the body is handed to \<^verbatim>\<open>replace\<close> as replacement text, where
  \<^verbatim>\<open>$$\<close> stands for one dollar sign: the body \<^verbatim>\<open>The area is $$ab$$\<close> of a
  matched issue is committed as \<^verbatim>\<open>The area is $ab$\<close>.
\<close>

theorem dollar_body_commit:
  "state maths_issue = ''closed'' \<and> isReviewerPresence (assignees maths_issue) \<and>
   find_metaphor (labels maths_issue) = Some (''maths'', ''maths'') \<and>
   body maths_issue = Some ''The area is $$ab$$'' \<and>
   map path (file_commits (calls (storyGenerator sample_utils (platform (Inr maths_issue))
      sample_ctx))) = [''public/collections/stories/maths/Area of a Circle.md''] \<and>
   map content (file_commits (calls (storyGenerator sample_utils (platform (Inr maths_issue))
      sample_ctx)))
   = [toBase64 (front_matter_document ''Area of a Circle'' ''alice'' ''2023-04-01T10:00:00Z''
        ''maths'' ''The area is $ab$'')] \<and>
   map content (file_commits (calls (storyGenerator sample_utils (platform (Inr maths_issue))
      sample_ctx)))
   \<noteq> [toBase64 (front_matter_document ''Area of a Circle'' ''alice'' ''2023-04-01T10:00:00Z''
        ''maths'' ''The area is $$ab$$'')]"
  by code_simp

lemma undescribed_issue_commit:
  "body undescribed_issue = None \<and>
   map content (file_commits (calls (storyGenerator sample_utils (platform (Inr undescribed_issue))
      sample_ctx)))
   = [toBase64 (front_matter_document ''A Tale of Borrow Checker'' ''alice''
        ''2023-04-01T10:00:00Z'' ''rust'' ''null'')]"
  by code_simp

end
